theory Spec2Isabelle
  imports Complex_Main "HOL-Library.Word" "HOL-Library.Signed_Division"
begin

section \<open>Clock functions of fio (gettime.c)\<close>

text \<open>
  The data model follows the LP64 ABI that fio is built for on Linux: \<open>long\<close>,
  \<open>unsigned long\<close>, \<open>unsigned long long\<close>, \<open>time_t\<close> and \<open>suseconds_t\<close> are all
  64 bits wide.  A 64-bit word carries no sign of its own: a \<open>long\<close> is read with
  \<open>sint\<close> and compared with \<open><s\<close>, an unsigned value is read with \<open>unat\<close> and
  compared with \<open><\<close>.  Unsigned arithmetic wraps around, as C defines it; signed
  arithmetic wraps around as well, which is what the compiled code does where C leaves
  the overflow undefined.
\<close>

subsection \<open>Time samples\<close>

record timeval =
  tv_sec :: "64 word"
  tv_usec :: "64 word"

record timespec =
  ts_sec :: "64 word"
  ts_nsec :: "64 word"

subsection \<open>Time arithmetic: \<open>utime_since\<close> and \<open>mtime_since\<close>\<close>

text \<open>
  \<open>utime_since\<close> (gettime.c, lines 265 to 286).  \<open>sec\<close> and \<open>usec\<close> are \<open>long\<close>;
  the product \<open>sec * 1000000ULL\<close> and the sum are computed in
  \<open>unsigned long long\<close>.
\<close>

definition utime_since :: "timeval \<Rightarrow> timeval \<Rightarrow> 64 word" where
  "utime_since s e =
     (let sec = tv_sec e - tv_sec s;
          usec = tv_usec e - tv_usec s;
          (sec, usec) = (if 0 <s sec \<and> usec <s 0 then (sec - 1, usec + 1000000)
                         else (sec, usec))
      in if sec <s 0 \<or> (sec = 0 \<and> usec <s 0) then 0
         else sec * 1000000 + usec)"

text \<open>
  \<open>mtime_since\<close> (gettime.c, lines 296 to 315).  Both \<open>sec *= 1000UL\<close> and
  \<open>usec /= 1000UL\<close> convert the \<open>long\<close> operand to \<open>unsigned long\<close>, so the
  division is the unsigned one.
\<close>

definition mtime_since :: "timeval \<Rightarrow> timeval \<Rightarrow> 64 word" where
  "mtime_since s e =
     (let sec = tv_sec e - tv_sec s;
          usec = tv_usec e - tv_usec s;
          (sec, usec) = (if 0 <s sec \<and> usec <s 0 then (sec - 1, usec + 1000000)
                         else (sec, usec))
      in if sec <s 0 \<or> (sec = 0 \<and> usec <s 0) then 0
         else let sec = sec * 1000;
                  usec = usec div 1000;
                  ret = sec + usec
              in ret)"

text \<open>The order of two time samples: seconds first, then microseconds.\<close>

definition tv_less :: "timeval \<Rightarrow> timeval \<Rightarrow> bool" where
  "tv_less a b \<longleftrightarrow>
     tv_sec a <s tv_sec b \<or> (tv_sec a = tv_sec b \<and> tv_usec a <s tv_usec b)"

definition tv_le :: "timeval \<Rightarrow> timeval \<Rightarrow> bool" where
  "tv_le a b \<longleftrightarrow> \<not> tv_less b a"

text \<open>A sample is normalised when its microsecond field lies in \<open>[0, 1000000)\<close>.\<close>

definition tv_norm :: "timeval \<Rightarrow> bool" where
  "tv_norm a \<longleftrightarrow> 0 \<le> sint (tv_usec a) \<and> sint (tv_usec a) < 1000000"


subsection \<open>The clock source: \<open>fio_gettime\<close>\<close>

text \<open>
  The clock sources of \<open>enum fio_cs\<close>.  \<open>CS_INVAL\<close> stands for every value that
  reaches the \<open>default\<close> branch of the switch.  The model is that of a build with
  \<open>ARCH_HAVE_CPU_CLOCK\<close> and without \<open>FIO_DEBUG_TIME\<close>.
\<close>

datatype fio_cs = CS_GTOD | CS_CGETTIME | CS_CPUCLOCK | CS_INVAL

text \<open>
  The file-level variables of gettime.c that \<open>fio_gettime\<close> reads and writes,
  together with the global pointer \<open>fio_tv\<close>: \<open>None\<close> is the null pointer,
  \<open>Some v\<close> a pointer to the sample \<open>v\<close>.
\<close>

record clock_state =
  fio_tv :: "timeval option"
  fio_clock_source :: fio_cs
  cycles_per_usec :: "64 word"
  last_cycles :: "64 word"
  last_tv :: timeval
  last_tv_valid :: bool

text \<open>
  What the operating system and the processor answer during one call:
  \<^item> \<open>gtod_result\<close>: the sample \<open>gettimeofday\<close> stores, or \<open>None\<close> when the call
    fails and stores nothing;
  \<^item> \<open>cgt_result\<close>: the \<open>timespec\<close> that \<open>clock_gettime\<close> stores, or \<open>None\<close>
    when it returns a negative value;
  \<^item> \<open>cpu_clock\<close>: the value of \<open>get_cpu_clock()\<close>.
\<close>

record clock_reading =
  gtod_result :: "timeval option"
  cgt_result :: "timespec option"
  cpu_clock :: "64 word"

text \<open>
  The ways in which the process stops instead of returning: the \<open>assert(0)\<close> that
  follows a \<open>log_err\<close> (the message logged is kept), and the trap of an integer
  division by zero.
\<close>

datatype fatal = Assert_failed string | Division_by_zero

text \<open>
  The division of two \<open>long\<close> values, which C truncates towards zero.
\<close>

definition long_div :: "64 word \<Rightarrow> 64 word \<Rightarrow> 64 word" where
  "long_div a b = word_of_int (sint a sdiv sint b)"

text \<open>
  Lines 178 to 184: the fix-up against the last sample returned.  Each branch assigns
  one field of \<open>*tp\<close> only.
\<close>

definition fixup_backwards :: "clock_state \<Rightarrow> timeval \<Rightarrow> timeval" where
  "fixup_backwards st tp =
     (if last_tv_valid st then
        if tv_sec tp <s tv_sec (last_tv st) then tp\<lparr>tv_sec := tv_sec (last_tv st)\<rparr>
        else if tv_sec (last_tv st) = tv_sec tp \<and> tv_usec tp <s tv_usec (last_tv st)
             then tp\<lparr>tv_usec := tv_usec (last_tv st)\<rparr>
        else tp
      else tp)"

text \<open>
  Lines 132 to 172: the switch on the clock source.  The second argument is the
  content of the caller's buffer \<open>*tp\<close> on entry; the result is its content after
  the switch, with the updated state.  The value returned by \<open>gettimeofday\<close> is
  not looked at, and the \<open>default\<close> branch leaves the buffer as it is.
\<close>

definition read_clock_source ::
  "clock_reading \<Rightarrow> timeval \<Rightarrow> clock_state \<Rightarrow> fatal + (timeval \<times> clock_state)" where
  "read_clock_source r tp st =
     (case fio_clock_source st of
        CS_GTOD \<Rightarrow> Inr (case gtod_result r of Some tv \<Rightarrow> tv | None \<Rightarrow> tp, st)
      | CS_CGETTIME \<Rightarrow>
          (case cgt_result r of
             None \<Rightarrow> Inl (Assert_failed ''fio: clock_gettime fails'')
           | Some ts \<Rightarrow> Inr (\<lparr>tv_sec = ts_sec ts, tv_usec = long_div (ts_nsec ts) 1000\<rparr>, st))
      | CS_CPUCLOCK \<Rightarrow>
          (let t = cpu_clock r;
               t = (if t < last_cycles st then last_cycles st else t)
           in if cycles_per_usec st = 0 then Inl Division_by_zero
              else let usecs = t div cycles_per_usec st
                   in Inr (\<lparr>tv_sec = usecs div 1000000, tv_usec = usecs mod 1000000\<rparr>,
                           st\<lparr>last_cycles := t\<rparr>))
      | CS_INVAL \<Rightarrow> Inr (tp, st))"

text \<open>
  \<open>fio_gettime\<close> (lines 116 to 187).  The result is the sample left in \<open>*tp\<close> and
  the new state, or the reason why the process stopped.
\<close>

definition fio_gettime ::
  "clock_reading \<Rightarrow> timeval \<Rightarrow> clock_state \<Rightarrow> fatal + (timeval \<times> clock_state)" where
  "fio_gettime r tp st =
     (case fio_tv st of
        Some v \<Rightarrow> Inr (v, st)
      | None \<Rightarrow>
          (case read_clock_source r tp st of
             Inl err \<Rightarrow> Inl err
           | Inr (tp, st) \<Rightarrow>
               (let tp = fixup_backwards st tp
                in Inr (tp, st\<lparr>last_tv_valid := True, last_tv := tp\<rparr>))))"

text \<open>
  A sequence of calls, each with its own readings and its own buffer: the samples
  returned, in order, and the final state.  A call that stops the process ends the
  sequence.
\<close>

fun fio_gettime_calls ::
  "(clock_reading \<times> timeval) list \<Rightarrow> clock_state \<Rightarrow> fatal + (timeval list \<times> clock_state)" where
  "fio_gettime_calls [] st = Inr ([], st)"
| "fio_gettime_calls ((r, tp) # rs) st =
     (case fio_gettime r tp st of
        Inl err \<Rightarrow> Inl err
      | Inr (tv, st') \<Rightarrow>
          (case fio_gettime_calls rs st' of
             Inl err \<Rightarrow> Inl err
           | Inr (tvs, st'') \<Rightarrow> Inr (tv # tvs, st'')))"

subsection \<open>The cycle calibrator: the platform\<close>

text \<open>
  The calibrator reads the wall clock and the cycle counter many times, and what it
  measures depends on the order of the readings.  The platform is therefore one
  time line: a sequence of instants, each with the value that either clock has at
  that instant.  Every call of \<open>gettimeofday\<close> or of \<open>get_cpu_clock\<close> takes place
  at the next instant of the sequence and reads its own clock there.  A finite prefix
  of the time line is given; a function that needs an instant beyond the prefix has
  not returned within the time observed, which is the result \<open>None\<close>.
\<close>

record tick =
  tick_wall :: timeval
  tick_cycles :: "64 word"

type_synonym platform = "tick list"

definition gettimeofday :: "platform \<Rightarrow> (timeval \<times> platform) option" where
  "gettimeofday w = (case w of [] \<Rightarrow> None | t # w \<Rightarrow> Some (tick_wall t, w))"

definition get_cpu_clock :: "platform \<Rightarrow> (64 word \<times> platform) option" where
  "get_cpu_clock w = (case w of [] \<Rightarrow> None | t # w \<Rightarrow> Some (tick_cycles t, w))"

text \<open>
  The polling loop of \<open>get_cycles_per_usec\<close> (lines 197 to 206) up to its
  \<open>if\<close>: each iteration reads the wall clock into \<open>e\<close> at the next instant and
  leaves the loop when \<open>utime_since(&s, &e)\<close> is at least 10.  The result is the
  time line after the last reading.
\<close>

fun poll_wall_clock :: "timeval \<Rightarrow> platform \<Rightarrow> platform option" where
  "poll_wall_clock s [] = None"
| "poll_wall_clock s (t # w) =
     (let e = tick_wall t;
          elapsed = utime_since s e
      in if 10 \<le> elapsed then Some w else poll_wall_clock s w)"

text \<open>
  \<open>get_cycles_per_usec\<close> (lines 190 to 209): the wall clock into \<open>s\<close>, the cycle
  counter into \<open>c_s\<close>, the polling loop, then the cycle counter into \<open>c_e\<close>; the
  result is \<open>c_e - c_s\<close>.
\<close>

definition get_cycles_per_usec :: "platform \<Rightarrow> (64 word \<times> platform) option" where
  "get_cycles_per_usec w =
     (case gettimeofday w of
        None \<Rightarrow> None
      | Some (s, w) \<Rightarrow>
          (case get_cpu_clock w of
             None \<Rightarrow> None
           | Some (c_s, w) \<Rightarrow>
               (case poll_wall_clock s w of
                  None \<Rightarrow> None
                | Some w \<Rightarrow>
                    (case get_cpu_clock w of
                       None \<Rightarrow> None
                     | Some (c_e, w) \<Rightarrow> Some (c_e - c_s, w)))))"

subsection \<open>The cycle calibrator: arithmetic in \<open>double\<close>\<close>

text \<open>
  The statistics of \<open>calibrate_cpu_clock\<close> are computed in \<open>double\<close>, the binary64
  format of IEEE 754: 53 significant bits, results rounded to the nearest
  representable number, ties to the one with an even last bit.  A \<open>double\<close> is
  modelled by the real number it stands for, and every operation by the exact
  operation followed by that rounding, each operation on its own (no fused
  multiply-add).  Below \<open>2 ^ (- 1022)\<close> the spacing of the format stays that of
  the subnormal numbers.  Infinities and NaNs are not represented: the samples are
  below \<open>2 ^ 64\<close>, so no intermediate value of the calibrator comes near the largest
  finite number, and no operation of the calibrator is invalid.  The two zeros are one
  number here; nothing in the calibrator tells them apart.
\<close>

text \<open>The integer nearest to \<open>y\<close>, the even one of the two when \<open>y\<close> lies half way.\<close>

definition rne :: "real \<Rightarrow> int" where
  "rne y = (let f = \<lfloor>y\<rfloor>
            in if y - of_int f < 1 / 2 then f
               else if 1 / 2 < y - of_int f then f + 1
               else if even f then f else f + 1)"

text \<open>
  Rounding to \<open>double\<close>: for \<open>2 ^ e \<le> |x| < 2 ^ (e + 1)\<close> the representable
  numbers are the multiples of \<open>2 ^ (e - 52)\<close>.
\<close>

definition rnd :: "real \<Rightarrow> real" where
  "rnd x = (if x = 0 then 0
            else let e = max \<lfloor>log 2 \<bar>x\<bar>\<rfloor> (- 1022);
                     ulp = 2 powr of_int (e - 52)
                 in of_int (rne (x / ulp)) * ulp)"

definition dadd :: "real \<Rightarrow> real \<Rightarrow> real" where
  "dadd a b = rnd (a + b)"

definition dsub :: "real \<Rightarrow> real \<Rightarrow> real" where
  "dsub a b = rnd (a - b)"

definition dmul :: "real \<Rightarrow> real \<Rightarrow> real" where
  "dmul a b = rnd (a * b)"

definition ddiv :: "real \<Rightarrow> real \<Rightarrow> real" where
  "ddiv a b = rnd (a / b)"

definition dsqrt :: "real \<Rightarrow> real" where
  "dsqrt a = rnd (sqrt a)"

text \<open>The conversion of an \<open>unsigned long\<close> and of the loop index \<open>i\<close> to \<open>double\<close>.\<close>

definition of_ulong :: "64 word \<Rightarrow> real" where
  "of_ulong c = rnd (real (unat c))"

definition of_index :: "nat \<Rightarrow> real" where
  "of_index i = rnd (real i)"

text \<open>
  The conversion of a \<open>double\<close> to \<open>unsigned long\<close> drops the fraction.  C leaves
  the conversion of a value outside the range of \<open>unsigned long\<close> undefined; the
  model reduces it modulo \<open>2 ^ 64\<close>.
\<close>

definition to_ulong :: "real \<Rightarrow> 64 word" where
  "to_ulong x = word_of_int (if 0 \<le> x then \<lfloor>x\<rfloor> else \<lceil>x\<rceil>)"

subsection \<open>The cycle calibrator: \<open>calibrate_cpu_clock\<close>\<close>

text \<open>
  Lines 221 to 225, the update of \<open>mean\<close> and \<open>S\<close> with the sample \<open>cycles[i]\<close>:
  \<^verbatim>\<open>delta = cycles[i] - mean; if (delta) { mean += delta / (i + 1.0);
  S += delta * (cycles[i] - mean); }\<close>
\<close>

definition stats_update :: "nat \<Rightarrow> 64 word \<Rightarrow> real \<times> real \<Rightarrow> real \<times> real" where
  "stats_update i c = (\<lambda>(mean, S).
     let delta = dsub (of_ulong c) mean
     in if delta \<noteq> 0
        then let mean = dadd mean (ddiv delta (dadd (of_index i) 1))
             in (mean, dadd S (dmul delta (dsub (of_ulong c) mean)))
        else (mean, S))"

text \<open>
  The first loop (lines 219 to 226).  The first argument counts the iterations left,
  the second is \<open>i\<close>.
\<close>

fun stats_loop ::
  "nat \<Rightarrow> nat \<Rightarrow> 64 word list \<times> real \<times> real \<times> platform
     \<Rightarrow> (64 word list \<times> real \<times> real \<times> platform) option" where
  "stats_loop 0 i acc = Some acc"
| "stats_loop (Suc n) i (cycles, mean, S, w) =
     (case get_cycles_per_usec w of
        None \<Rightarrow> None
      | Some (c, w) \<Rightarrow>
          (let cycles = cycles[i := c];
               (mean, S) = stats_update i c (mean, S)
           in stats_loop n (Suc i) (cycles, mean, S, w)))"

text \<open>
  Lines 217 to 228: the sample taken into \<open>cycles[0]\<close> before the loop, the loop
  over the ten samples, and \<open>S = sqrt(S / (10 - 1.0))\<close>.  The array \<open>cycles\<close> is
  not initialised in the code; each of its elements is written before it is read, so
  the initial content chosen here does not show.
\<close>

definition calibration_stats ::
  "platform \<Rightarrow> (64 word list \<times> real \<times> real \<times> platform) option" where
  "calibration_stats w =
     (case get_cycles_per_usec w of
        None \<Rightarrow> None
      | Some (c, w) \<Rightarrow>
          (case stats_loop 10 0 ((replicate 10 0)[0 := c], 0, 0, w) of
             None \<Rightarrow> None
           | Some (cycles, mean, S, w) \<Rightarrow>
               Some (cycles, mean, dsqrt (ddiv S (dsub 10 1)), w)))"

text \<open>
  The second loop (lines 231 to 238) over the elements of \<open>cycles\<close>, with the
  counters \<open>samples\<close> and \<open>avg\<close>:
  \<^verbatim>\<open>double this = cycles[i]; if ((fmax(this, mean) - fmin(this, mean)) > S) continue;
  samples++; avg += this;\<close>
  where \<open>avg += this\<close> converts \<open>avg\<close> to \<open>double\<close>, adds, and converts the sum back
  to \<open>unsigned long\<close>.
\<close>

fun reject_loop :: "64 word list \<Rightarrow> real \<Rightarrow> real \<Rightarrow> nat \<times> 64 word \<Rightarrow> nat \<times> 64 word" where
  "reject_loop [] mean S acc = acc"
| "reject_loop (c # cycles) mean S (samples, avg) =
     (let this = of_ulong c
      in if dsub (max this mean) (min this mean) > S
         then reject_loop cycles mean S (samples, avg)
         else reject_loop cycles mean S (samples + 1, to_ulong (dadd (of_ulong avg) this)))"

text \<open>
  \<open>calibrate_cpu_clock\<close> (lines 211 to 252).  \<open>avg /= (samples * 10)\<close> is an
  unsigned division, which traps when no sample was kept.
\<close>

definition calibrate_cpu_clock ::
  "platform \<Rightarrow> clock_state \<Rightarrow> (fatal + clock_state \<times> platform) option" where
  "calibrate_cpu_clock w st =
     (case calibration_stats w of
        None \<Rightarrow> None
      | Some (cycles, mean, S, w) \<Rightarrow>
          (let (samples, avg) = reject_loop cycles mean S (0, 0)
           in if samples * 10 = 0 then Some (Inl Division_by_zero)
              else let avg = avg div word_of_nat (samples * 10)
                   in Some (Inr (st\<lparr>cycles_per_usec := avg\<rparr>, w))))"

text \<open>\<open>fio_clock_init\<close> (lines 259 to 263).\<close>

definition fio_clock_init ::
  "platform \<Rightarrow> clock_state \<Rightarrow> (fatal + clock_state \<times> platform) option" where
  "fio_clock_init w st = calibrate_cpu_clock w (st\<lparr>last_tv_valid := False\<rparr>)"

text \<open>
  The candidates of \<open>n\<close> successive rounds of \<open>get_cycles_per_usec\<close>, in the order
  in which they are taken.
\<close>

fun sampling_rounds :: "nat \<Rightarrow> platform \<Rightarrow> (64 word list \<times> platform) option" where
  "sampling_rounds 0 w = Some ([], w)"
| "sampling_rounds (Suc n) w =
     (case get_cycles_per_usec w of
        None \<Rightarrow> None
      | Some (c, w) \<Rightarrow>
          (case sampling_rounds n w of
             None \<Rightarrow> None
           | Some (cs, w) \<Rightarrow> Some (c # cs, w)))"

text \<open>
  The updates of lines 221 to 225 applied to a list of samples in the order of the
  loop, starting at index \<open>i\<close>.
\<close>

fun welford :: "nat \<Rightarrow> 64 word list \<Rightarrow> real \<times> real \<Rightarrow> real \<times> real" where
  "welford i [] acc = acc"
| "welford i (c # cs) acc = welford (Suc i) cs (stats_update i c acc)"



subsection \<open>An example platform\<close>

text \<open>
  Eleven sampling rounds, one every 100 microseconds, of four instants each: the two
  readings that open the round, one microsecond apart, and the two that close it, ten
  and eleven microseconds after its start.  The counter runs at about 3000 cycles per
  microsecond; the rounds measure 30000, 29991, 30003, five times 29997, 30021 and
  twice 30000 cycles.
\<close>

definition example_platform :: platform where
  "example_platform =
     [\<lparr>tick_wall = \<lparr>tv_sec = 0, tv_usec = 0\<rparr>, tick_cycles = 0\<rparr>,
      \<lparr>tick_wall = \<lparr>tv_sec = 0, tv_usec = 1\<rparr>, tick_cycles = 3000\<rparr>,
      \<lparr>tick_wall = \<lparr>tv_sec = 0, tv_usec = 10\<rparr>, tick_cycles = 30000\<rparr>,
      \<lparr>tick_wall = \<lparr>tv_sec = 0, tv_usec = 11\<rparr>, tick_cycles = 33000\<rparr>,
      \<lparr>tick_wall = \<lparr>tv_sec = 0, tv_usec = 100\<rparr>, tick_cycles = 300000\<rparr>,
      \<lparr>tick_wall = \<lparr>tv_sec = 0, tv_usec = 101\<rparr>, tick_cycles = 303000\<rparr>,
      \<lparr>tick_wall = \<lparr>tv_sec = 0, tv_usec = 110\<rparr>, tick_cycles = 330000\<rparr>,
      \<lparr>tick_wall = \<lparr>tv_sec = 0, tv_usec = 111\<rparr>, tick_cycles = 332991\<rparr>,
      \<lparr>tick_wall = \<lparr>tv_sec = 0, tv_usec = 200\<rparr>, tick_cycles = 600000\<rparr>,
      \<lparr>tick_wall = \<lparr>tv_sec = 0, tv_usec = 201\<rparr>, tick_cycles = 603000\<rparr>,
      \<lparr>tick_wall = \<lparr>tv_sec = 0, tv_usec = 210\<rparr>, tick_cycles = 630000\<rparr>,
      \<lparr>tick_wall = \<lparr>tv_sec = 0, tv_usec = 211\<rparr>, tick_cycles = 633003\<rparr>,
      \<lparr>tick_wall = \<lparr>tv_sec = 0, tv_usec = 300\<rparr>, tick_cycles = 900000\<rparr>,
      \<lparr>tick_wall = \<lparr>tv_sec = 0, tv_usec = 301\<rparr>, tick_cycles = 903000\<rparr>,
      \<lparr>tick_wall = \<lparr>tv_sec = 0, tv_usec = 310\<rparr>, tick_cycles = 930000\<rparr>,
      \<lparr>tick_wall = \<lparr>tv_sec = 0, tv_usec = 311\<rparr>, tick_cycles = 932997\<rparr>,
      \<lparr>tick_wall = \<lparr>tv_sec = 0, tv_usec = 400\<rparr>, tick_cycles = 1200000\<rparr>,
      \<lparr>tick_wall = \<lparr>tv_sec = 0, tv_usec = 401\<rparr>, tick_cycles = 1203000\<rparr>,
      \<lparr>tick_wall = \<lparr>tv_sec = 0, tv_usec = 410\<rparr>, tick_cycles = 1230000\<rparr>,
      \<lparr>tick_wall = \<lparr>tv_sec = 0, tv_usec = 411\<rparr>, tick_cycles = 1232997\<rparr>,
      \<lparr>tick_wall = \<lparr>tv_sec = 0, tv_usec = 500\<rparr>, tick_cycles = 1500000\<rparr>,
      \<lparr>tick_wall = \<lparr>tv_sec = 0, tv_usec = 501\<rparr>, tick_cycles = 1503000\<rparr>,
      \<lparr>tick_wall = \<lparr>tv_sec = 0, tv_usec = 510\<rparr>, tick_cycles = 1530000\<rparr>,
      \<lparr>tick_wall = \<lparr>tv_sec = 0, tv_usec = 511\<rparr>, tick_cycles = 1532997\<rparr>,
      \<lparr>tick_wall = \<lparr>tv_sec = 0, tv_usec = 600\<rparr>, tick_cycles = 1800000\<rparr>,
      \<lparr>tick_wall = \<lparr>tv_sec = 0, tv_usec = 601\<rparr>, tick_cycles = 1803000\<rparr>,
      \<lparr>tick_wall = \<lparr>tv_sec = 0, tv_usec = 610\<rparr>, tick_cycles = 1830000\<rparr>,
      \<lparr>tick_wall = \<lparr>tv_sec = 0, tv_usec = 611\<rparr>, tick_cycles = 1832997\<rparr>,
      \<lparr>tick_wall = \<lparr>tv_sec = 0, tv_usec = 700\<rparr>, tick_cycles = 2100000\<rparr>,
      \<lparr>tick_wall = \<lparr>tv_sec = 0, tv_usec = 701\<rparr>, tick_cycles = 2103000\<rparr>,
      \<lparr>tick_wall = \<lparr>tv_sec = 0, tv_usec = 710\<rparr>, tick_cycles = 2130000\<rparr>,
      \<lparr>tick_wall = \<lparr>tv_sec = 0, tv_usec = 711\<rparr>, tick_cycles = 2132997\<rparr>,
      \<lparr>tick_wall = \<lparr>tv_sec = 0, tv_usec = 800\<rparr>, tick_cycles = 2400000\<rparr>,
      \<lparr>tick_wall = \<lparr>tv_sec = 0, tv_usec = 801\<rparr>, tick_cycles = 2403000\<rparr>,
      \<lparr>tick_wall = \<lparr>tv_sec = 0, tv_usec = 810\<rparr>, tick_cycles = 2430000\<rparr>,
      \<lparr>tick_wall = \<lparr>tv_sec = 0, tv_usec = 811\<rparr>, tick_cycles = 2433021\<rparr>,
      \<lparr>tick_wall = \<lparr>tv_sec = 0, tv_usec = 900\<rparr>, tick_cycles = 2700000\<rparr>,
      \<lparr>tick_wall = \<lparr>tv_sec = 0, tv_usec = 901\<rparr>, tick_cycles = 2703000\<rparr>,
      \<lparr>tick_wall = \<lparr>tv_sec = 0, tv_usec = 910\<rparr>, tick_cycles = 2730000\<rparr>,
      \<lparr>tick_wall = \<lparr>tv_sec = 0, tv_usec = 911\<rparr>, tick_cycles = 2733000\<rparr>,
      \<lparr>tick_wall = \<lparr>tv_sec = 0, tv_usec = 1000\<rparr>, tick_cycles = 3000000\<rparr>,
      \<lparr>tick_wall = \<lparr>tv_sec = 0, tv_usec = 1001\<rparr>, tick_cycles = 3003000\<rparr>,
      \<lparr>tick_wall = \<lparr>tv_sec = 0, tv_usec = 1010\<rparr>, tick_cycles = 3030000\<rparr>,
      \<lparr>tick_wall = \<lparr>tv_sec = 0, tv_usec = 1011\<rparr>, tick_cycles = 3033000\<rparr>]"

section \<open>Properties of the time arithmetic\<close>

subsection \<open>Reading 64-bit words as signed and unsigned numbers\<close>

lemma sint_nonneg_unat:
  fixes w :: "64 word"
  assumes "0 \<le> sint w"
  shows "unat w = nat (sint w)"
proof -
  have "sint w < 2 ^ 64" using sint_lt [of w] by simp
  with assms have "take_bit 64 (sint w) = sint w"
    by (simp add: take_bit_int_eq_self)
  then have "uint w = sint w" by (simp add: uint_sint)
  then show ?thesis by (simp add: unat_eq_nat_uint)
qed

lemma sint_dec:
  fixes w :: "64 word"
  assumes "0 < sint w"
  shows "sint (w - 1) = sint w - 1"
  using assms sint_lt [of w]
  by (simp add: sint_word_ariths signed_take_bit_int_eq_self)

lemma sint_sub_exact:
  fixes a b :: "64 word"
  assumes "- (2 ^ 63) \<le> sint a - sint b" "sint a - sint b < 2 ^ 63"
  shows "sint (a - b) = sint a - sint b"
  using assms by (simp add: sint_word_ariths signed_take_bit_int_eq_self)

lemma usec_delta:
  assumes "tv_norm s" "tv_norm e"
  shows "sint (tv_usec e - tv_usec s) = sint (tv_usec e) - sint (tv_usec s)"
  using assms unfolding tv_norm_def
  by (simp add: sint_word_ariths signed_take_bit_int_eq_self)

subsection \<open>The three paths through \<open>utime_since\<close> and \<open>mtime_since\<close>\<close>

lemma since_zero:
  assumes "tv_sec e - tv_sec s <s 0 \<or> (tv_sec e - tv_sec s = 0 \<and> tv_usec e - tv_usec s <s 0)"
  shows "utime_since s e = 0" and "mtime_since s e = 0"
  using assms by (auto simp: utime_since_def mtime_since_def Let_def word_sless_alt)

lemma since_borrow:
  assumes "0 <s tv_sec e - tv_sec s" "tv_usec e - tv_usec s <s 0"
    and "\<not> (tv_sec e - tv_sec s - 1 <s 0 \<or>
            (tv_sec e - tv_sec s - 1 = 0 \<and> tv_usec e - tv_usec s + 1000000 <s 0))"
  shows "utime_since s e
           = (tv_sec e - tv_sec s - 1) * 1000000 + (tv_usec e - tv_usec s + 1000000)"
    and "mtime_since s e
           = (tv_sec e - tv_sec s - 1) * 1000 + (tv_usec e - tv_usec s + 1000000) div 1000"
  unfolding utime_since_def mtime_since_def Let_def
  using assms by (simp_all only: simp_thms if_True if_False prod.case)

lemma since_plain:
  assumes "\<not> (0 <s tv_sec e - tv_sec s \<and> tv_usec e - tv_usec s <s 0)"
    and "\<not> (tv_sec e - tv_sec s <s 0 \<or>
            (tv_sec e - tv_sec s = 0 \<and> tv_usec e - tv_usec s <s 0))"
  shows "utime_since s e = (tv_sec e - tv_sec s) * 1000000 + (tv_usec e - tv_usec s)"
    and "mtime_since s e = (tv_sec e - tv_sec s) * 1000 + (tv_usec e - tv_usec s) div 1000"
  unfolding utime_since_def mtime_since_def Let_def
  using assms by (simp_all only: simp_thms if_True if_False prod.case)

lemma before_gives_negative_delta:
  assumes n: "tv_norm s" "tv_norm e"
    and r: "- (2 ^ 63) \<le> sint (tv_sec e) - sint (tv_sec s)"
    and b: "tv_less e s"
  shows "tv_sec e - tv_sec s <s 0 \<or> (tv_sec e - tv_sec s = 0 \<and> tv_usec e - tv_usec s <s 0)"
proof (cases "tv_sec e <s tv_sec s")
  case True
  then have lt: "sint (tv_sec e) - sint (tv_sec s) < 0" by (simp add: word_sless_alt)
  then have "sint (tv_sec e - tv_sec s) = sint (tv_sec e) - sint (tv_sec s)"
    using r by (intro sint_sub_exact) simp_all
  with lt show ?thesis by (simp add: word_sless_alt)
next
  case False
  with b have eq: "tv_sec e = tv_sec s" and lt: "tv_usec e <s tv_usec s"
    by (simp_all add: tv_less_def)
  have "sint (tv_usec e - tv_usec s) = sint (tv_usec e) - sint (tv_usec s)"
    using n by (rule usec_delta)
  with lt have "tv_usec e - tv_usec s <s 0" by (simp add: word_sless_alt)
  with eq show ?thesis by simp
qed

subsection \<open>Milliseconds against microseconds\<close>

lemma scale_div_1000:
  fixes a b :: "64 word"
  assumes a: "unat a < 18446744073709" and b: "unat b < 1000000"
  shows "(a * 1000000 + b) div 1000 = a * 1000 + b div 1000"
proof -
  have "unat (a * 1000000 + b) = unat a * 1000000 + unat b"
    using a b by (simp add: unat_word_ariths)
  moreover have "unat (a * 1000 + b div 1000) = unat a * 1000 + unat b div 1000"
    using a b by (simp add: unat_word_ariths unat_div)
  ultimately have "unat ((a * 1000000 + b) div 1000) = unat (a * 1000 + b div 1000)"
    by (simp add: unat_div)
  then show ?thesis by (rule word_unat_eq_iff [THEN iffD2])
qed

lemma mtime_utime_core:
  fixes sec usec :: "64 word"
  assumes "0 \<le> sint sec" "sint sec < 18446744073709" "0 \<le> sint usec" "sint usec < 1000000"
  shows "(sec * 1000000 + usec) div 1000 = sec * 1000 + usec div 1000"
proof -
  have "unat sec < 18446744073709" "unat usec < 1000000"
    using assms by (simp_all add: sint_nonneg_unat)
  then show ?thesis by (rule scale_div_1000)
qed

text \<open>
  Claim C2.  The values returned by \<open>utime_since\<close> and \<open>mtime_since\<close> are unsigned,
  hence never negative, and both functions return zero whenever the second delta is
  negative or the second delta is zero and the microsecond delta is negative.  In
  particular, when \<open>e\<close> is a normalised sample lying before the normalised sample \<open>s\<close>
  (and the difference of their seconds fits a \<open>long\<close>), both return zero.
\<close>

theorem since_clamps_negative_to_zero:
  "0 \<le> uint (utime_since s e) \<and> 0 \<le> uint (mtime_since s e) \<and>
   (tv_sec e - tv_sec s <s 0 \<or> (tv_sec e - tv_sec s = 0 \<and> tv_usec e - tv_usec s <s 0)
      \<longrightarrow> utime_since s e = 0 \<and> mtime_since s e = 0) \<and>
   (tv_norm s \<and> tv_norm e \<and> - (2 ^ 63) \<le> sint (tv_sec e) - sint (tv_sec s) \<and> tv_less e s
      \<longrightarrow> utime_since s e = 0 \<and> mtime_since s e = 0)"
proof (intro conjI impI)
  assume "tv_sec e - tv_sec s <s 0 \<or> (tv_sec e - tv_sec s = 0 \<and> tv_usec e - tv_usec s <s 0)"
  then show "utime_since s e = 0" and "mtime_since s e = 0"
    by (rule since_zero)+
next
  assume a: "tv_norm s \<and> tv_norm e \<and> - (2 ^ 63) \<le> sint (tv_sec e) - sint (tv_sec s) \<and> tv_less e s"
  then have "tv_sec e - tv_sec s <s 0 \<or> (tv_sec e - tv_sec s = 0 \<and> tv_usec e - tv_usec s <s 0)"
    by (intro before_gives_negative_delta) simp_all
  then show "utime_since s e = 0" and "mtime_since s e = 0"
    by (rule since_zero)+
qed simp_all

theorem since_clamps_negative_to_zero_witness:
  "tv_norm \<lparr>tv_sec = 7, tv_usec = 250\<rparr> \<and> tv_norm \<lparr>tv_sec = 7, tv_usec = 100\<rparr> \<and>
   tv_less \<lparr>tv_sec = 7, tv_usec = 100\<rparr> \<lparr>tv_sec = 7, tv_usec = 250\<rparr> \<and>
   utime_since \<lparr>tv_sec = 7, tv_usec = 250\<rparr> \<lparr>tv_sec = 7, tv_usec = 100\<rparr> = 0 \<and>
   mtime_since \<lparr>tv_sec = 7, tv_usec = 250\<rparr> \<lparr>tv_sec = 7, tv_usec = 100\<rparr> = 0 \<and>
   utime_since \<lparr>tv_sec = 9, tv_usec = 0\<rparr> \<lparr>tv_sec = 3, tv_usec = 5\<rparr> = 0 \<and>
   mtime_since \<lparr>tv_sec = 9, tv_usec = 0\<rparr> \<lparr>tv_sec = 3, tv_usec = 5\<rparr> = 0"
  using since_clamps_negative_to_zero
          [of "\<lparr>tv_sec = 7, tv_usec = 250\<rparr>" "\<lparr>tv_sec = 7, tv_usec = 100\<rparr>"]
        since_clamps_negative_to_zero
          [of "\<lparr>tv_sec = 9, tv_usec = 0\<rparr>" "\<lparr>tv_sec = 3, tv_usec = 5\<rparr>"]
  by (simp add: tv_norm_def tv_less_def word_sless_alt)

text \<open>
  Claim C9, as the code has it.  For normalised samples \<open>mtime_since\<close> is
  \<open>utime_since\<close> divided by 1000, provided the second delta is below
  18446744073709, so that the microsecond count \<open>sec * 1000000 + usec\<close> fits the
  64 bits of \<open>unsigned long long\<close>.
\<close>

theorem mtime_since_coarsens_utime_since:
  assumes n: "tv_norm s" "tv_norm e"
    and b: "sint (tv_sec e - tv_sec s) < 18446744073709"
  shows "mtime_since s e = utime_since s e div 1000"
proof -
  define sec where "sec = tv_sec e - tv_sec s"
  define usec where "usec = tv_usec e - tv_usec s"
  have u: "sint usec = sint (tv_usec e) - sint (tv_usec s)"
    unfolding usec_def using n by (rule usec_delta)
  have ur: "- 1000000 < sint usec" "sint usec < 1000000"
    using n u by (simp_all add: tv_norm_def)
  have b': "sint sec < 18446744073709" using b by (simp add: sec_def)
  consider (borrow) "0 < sint sec" "sint usec < 0"
    | (zero) "sint sec < 0 \<or> (sec = 0 \<and> sint usec < 0)"
    | (plain) "0 \<le> sint sec" "0 \<le> sint usec"
    by (metis linorder_not_le order_le_less signed_eq_0_iff)
  then show ?thesis
  proof cases
    case borrow
    have s1: "sint (sec - 1) = sint sec - 1" using borrow(1) by (rule sint_dec)
    have u1: "sint (usec + 1000000) = sint usec + 1000000"
      using ur by (simp add: sint_word_ariths signed_take_bit_int_eq_self)
    have c: "0 <s sec" "usec <s 0" using borrow by (simp_all add: word_sless_alt)
    have nz: "\<not> (sec - 1 <s 0 \<or> (sec - 1 = 0 \<and> usec + 1000000 <s 0))"
      using s1 u1 borrow ur by (simp add: word_sless_alt)
    have "((sec - 1) * 1000000 + (usec + 1000000)) div 1000
            = (sec - 1) * 1000 + (usec + 1000000) div 1000"
      using s1 u1 borrow ur b' by (intro mtime_utime_core) simp_all
    then show ?thesis
      using since_borrow [of e s, folded sec_def usec_def, OF c nz] by simp
  next
    case zero
    then have "sec <s 0 \<or> (sec = 0 \<and> usec <s 0)" by (simp add: word_sless_alt)
    then show ?thesis
      using since_zero [of e s, folded sec_def usec_def] by simp
  next
    case plain
    have c: "\<not> (0 <s sec \<and> usec <s 0)" using plain by (simp add: word_sless_alt)
    have nz: "\<not> (sec <s 0 \<or> (sec = 0 \<and> usec <s 0))"
      using plain by (simp add: word_sless_alt)
    have "(sec * 1000000 + usec) div 1000 = sec * 1000 + usec div 1000"
      using plain ur b' by (intro mtime_utime_core) simp_all
    then show ?thesis
      using since_plain [of e s, folded sec_def usec_def, OF c nz] by simp
  qed
qed

theorem mtime_since_coarsens_utime_since_witness:
  "tv_norm \<lparr>tv_sec = 1, tv_usec = 999999\<rparr> \<and> tv_norm \<lparr>tv_sec = 3, tv_usec = 5\<rparr> \<and>
   mtime_since \<lparr>tv_sec = 1, tv_usec = 999999\<rparr> \<lparr>tv_sec = 3, tv_usec = 5\<rparr> = 1000 \<and>
   utime_since \<lparr>tv_sec = 1, tv_usec = 999999\<rparr> \<lparr>tv_sec = 3, tv_usec = 5\<rparr> div 1000 = 1000"
  using mtime_since_coarsens_utime_since
          [of "\<lparr>tv_sec = 1, tv_usec = 999999\<rparr>" "\<lparr>tv_sec = 3, tv_usec = 5\<rparr>"]
  by (simp add: tv_norm_def mtime_since_def Let_def word_sless_alt)

text \<open>
  The claim as it is written, for every pair of normalised samples, fails once the
  microsecond count passes \<open>2 ^ 64\<close>: with a second delta of 18446744073710 the
  product \<open>sec * 1000000ULL\<close> wraps around to 448384, while the millisecond count
  18446744073710000 still fits.
\<close>

theorem mtime_since_coarsens_utime_since_counterexample:
  "tv_norm \<lparr>tv_sec = 0, tv_usec = 0\<rparr> \<and> tv_norm \<lparr>tv_sec = 18446744073710, tv_usec = 0\<rparr> \<and>
   utime_since \<lparr>tv_sec = 0, tv_usec = 0\<rparr> \<lparr>tv_sec = 18446744073710, tv_usec = 0\<rparr> = 448384 \<and>
   mtime_since \<lparr>tv_sec = 0, tv_usec = 0\<rparr> \<lparr>tv_sec = 18446744073710, tv_usec = 0\<rparr>
     = 18446744073710000 \<and>
   mtime_since \<lparr>tv_sec = 0, tv_usec = 0\<rparr> \<lparr>tv_sec = 18446744073710, tv_usec = 0\<rparr>
     \<noteq> utime_since \<lparr>tv_sec = 0, tv_usec = 0\<rparr> \<lparr>tv_sec = 18446744073710, tv_usec = 0\<rparr> div 1000"
  by (simp add: tv_norm_def utime_since_def mtime_since_def Let_def word_sless_alt)


section \<open>Properties of the clock source\<close>

subsection \<open>The cycle counter branch and the state it leaves\<close>

lemma read_clock_source_cpuclock:
  assumes "fio_clock_source st = CS_CPUCLOCK" "cycles_per_usec st \<noteq> 0"
  shows "read_clock_source r tp st =
     Inr (\<lparr>tv_sec = max (cpu_clock r) (last_cycles st) div cycles_per_usec st div 1000000,
           tv_usec = max (cpu_clock r) (last_cycles st) div cycles_per_usec st mod 1000000\<rparr>,
          st\<lparr>last_cycles := max (cpu_clock r) (last_cycles st)\<rparr>)"
proof (cases "cpu_clock r < last_cycles st")
  case True
  then have "max (cpu_clock r) (last_cycles st) = last_cycles st" by simp
  with True assms show ?thesis by (simp add: read_clock_source_def Let_def)
next
  case False
  then have "max (cpu_clock r) (last_cycles st) = cpu_clock r" by simp
  with False assms show ?thesis by (simp add: read_clock_source_def Let_def)
qed

lemma read_clock_source_last_cycles:
  assumes "read_clock_source r tp st = Inr (tv, st')"
  shows "last_cycles st \<le> last_cycles st' \<and> fio_tv st' = fio_tv st \<and>
         fio_clock_source st' = fio_clock_source st \<and>
         cycles_per_usec st' = cycles_per_usec st"
proof (cases "fio_clock_source st")
  case CS_GTOD
  with assms show ?thesis by (auto simp: read_clock_source_def)
next
  case CS_CGETTIME
  with assms show ?thesis by (auto simp: read_clock_source_def split: option.splits)
next
  case CS_CPUCLOCK
  with assms show ?thesis
    by (auto simp: read_clock_source_def Let_def split: if_splits)
next
  case CS_INVAL
  with assms show ?thesis by (auto simp: read_clock_source_def)
qed

lemma fio_gettime_last_cycles:
  assumes "fio_gettime r tp st = Inr (tv, st')"
  shows "last_cycles st \<le> last_cycles st'"
proof (cases "fio_tv st")
  case None
  with assms obtain tp1 st1 where 1: "read_clock_source r tp st = Inr (tp1, st1)"
    and 2: "st' = st1\<lparr>last_tv_valid := True, last_tv := fixup_backwards st1 tp1\<rparr>"
    by (auto simp: fio_gettime_def Let_def split: sum.splits)
  from read_clock_source_last_cycles [OF 1] 2 show ?thesis by simp
next
  case (Some v)
  with assms show ?thesis by (simp add: fio_gettime_def)
qed

lemma fio_gettime_config_kept:
  assumes "fio_gettime r tp st = Inr (tv, st')"
  shows "fio_tv st' = fio_tv st \<and> fio_clock_source st' = fio_clock_source st \<and>
         cycles_per_usec st' = cycles_per_usec st"
proof (cases "fio_tv st")
  case None
  with assms obtain tp1 st1 where 1: "read_clock_source r tp st = Inr (tp1, st1)"
    and 2: "st' = st1\<lparr>last_tv_valid := True, last_tv := fixup_backwards st1 tp1\<rparr>"
    by (auto simp: fio_gettime_def Let_def split: sum.splits)
  from read_clock_source_last_cycles [OF 1] 2 show ?thesis by simp
next
  case (Some v)
  with assms show ?thesis by (simp add: fio_gettime_def)
qed

lemma fio_gettime_calls_last_cycles:
  "fio_gettime_calls rs st = Inr (tvs, st') \<Longrightarrow> last_cycles st \<le> last_cycles st'"
proof (induction rs arbitrary: st tvs)
  case Nil
  then show ?case by simp
next
  case (Cons a rs)
  obtain r tp where a: "a = (r, tp)" by (cases a)
  from Cons.prems a obtain tv st1 tvs1
    where 1: "fio_gettime r tp st = Inr (tv, st1)"
      and 2: "fio_gettime_calls rs st1 = Inr (tvs1, st')"
    by (auto split: sum.splits)
  from 1 have "last_cycles st \<le> last_cycles st1" by (rule fio_gettime_last_cycles)
  also from 2 have "\<dots> \<le> last_cycles st'" by (rule Cons.IH)
  finally show ?case .
qed

lemma fio_gettime_calls_cpuclock_returns:
  assumes "fio_tv st = None" "fio_clock_source st = CS_CPUCLOCK" "cycles_per_usec st \<noteq> 0"
  shows "\<exists>tvs st'. fio_gettime_calls rs st = Inr (tvs, st') \<and> length tvs = length rs"
  using assms
proof (induction rs arbitrary: st)
  case Nil
  then show ?case by simp
next
  case (Cons a rs)
  obtain r tp where a: "a = (r, tp)" by (cases a)
  from Cons.prems obtain tv st1 where 1: "fio_gettime r tp st = Inr (tv, st1)"
    by (simp add: fio_gettime_def read_clock_source_cpuclock Let_def)
  from fio_gettime_config_kept [OF 1] Cons.prems
  have "fio_tv st1 = None" "fio_clock_source st1 = CS_CPUCLOCK" "cycles_per_usec st1 \<noteq> 0"
    by simp_all
  from Cons.IH [OF this] obtain tvs st' 
    where "fio_gettime_calls rs st1 = Inr (tvs, st')" "length tvs = length rs" by blast
  with 1 a show ?case by simp
qed

text \<open>
  Claim C3.  With the cycle counter as clock source (no fixed time set, a nonzero
  calibration constant), a call returns; the cycle value it keeps is the larger of
  the counter's reading and the value kept before, so a reading below the previous
  one is replaced by the previous one; the candidate sample is that cycle value
  divided by \<open>cycles_per_usec\<close>, split into seconds and microseconds, and then
  passed through the fix-up against the last sample returned.  Over every sequence of
  calls that returns, whatever the clock source, the stored cycle value does not
  decrease, and with the cycle counter every sequence of calls returns.
\<close>

theorem cpu_clock_regression_clamped:
  "(fio_tv st = None \<and> fio_clock_source st = CS_CPUCLOCK \<and> cycles_per_usec st \<noteq> 0 \<longrightarrow>
      fio_gettime r tp st =
        (let t = max (cpu_clock r) (last_cycles st);
             usecs = t div cycles_per_usec st;
             tv = fixup_backwards st
                    \<lparr>tv_sec = usecs div 1000000, tv_usec = usecs mod 1000000\<rparr>
         in Inr (tv, st\<lparr>last_cycles := t, last_tv_valid := True, last_tv := tv\<rparr>))) \<and>
   (cpu_clock r < last_cycles st \<longrightarrow> max (cpu_clock r) (last_cycles st) = last_cycles st) \<and>
   (fio_gettime_calls rs st = Inr (tvs, st') \<longrightarrow> last_cycles st \<le> last_cycles st') \<and>
   (fio_tv st = None \<and> fio_clock_source st = CS_CPUCLOCK \<and> cycles_per_usec st \<noteq> 0 \<longrightarrow>
      (\<exists>tvs st'. fio_gettime_calls rs st = Inr (tvs, st') \<and> length tvs = length rs))"
proof (intro conjI impI)
  assume a: "fio_tv st = None \<and> fio_clock_source st = CS_CPUCLOCK \<and> cycles_per_usec st \<noteq> 0"
  then have "read_clock_source r tp st =
     Inr (\<lparr>tv_sec = max (cpu_clock r) (last_cycles st) div cycles_per_usec st div 1000000,
           tv_usec = max (cpu_clock r) (last_cycles st) div cycles_per_usec st mod 1000000\<rparr>,
          st\<lparr>last_cycles := max (cpu_clock r) (last_cycles st)\<rparr>)"
    by (intro read_clock_source_cpuclock) simp_all
  with a show "fio_gettime r tp st =
        (let t = max (cpu_clock r) (last_cycles st);
             usecs = t div cycles_per_usec st;
             tv = fixup_backwards st
                    \<lparr>tv_sec = usecs div 1000000, tv_usec = usecs mod 1000000\<rparr>
         in Inr (tv, st\<lparr>last_cycles := t, last_tv_valid := True, last_tv := tv\<rparr>))"
    by (simp add: fio_gettime_def fixup_backwards_def Let_def)
  from a show "\<exists>tvs st'. fio_gettime_calls rs st = Inr (tvs, st') \<and> length tvs = length rs"
    by (intro fio_gettime_calls_cpuclock_returns) simp_all
next
  assume "cpu_clock r < last_cycles st"
  then show "max (cpu_clock r) (last_cycles st) = last_cycles st" by simp
next
  assume "fio_gettime_calls rs st = Inr (tvs, st')"
  then show "last_cycles st \<le> last_cycles st'" by (rule fio_gettime_calls_last_cycles)
qed

theorem cpu_clock_regression_clamped_witness:
  "fio_gettime \<lparr>gtod_result = None, cgt_result = None, cpu_clock = 8999999000\<rparr>
       \<lparr>tv_sec = 0, tv_usec = 0\<rparr>
       \<lparr>fio_tv = None, fio_clock_source = CS_CPUCLOCK, cycles_per_usec = 3000,
        last_cycles = 9000000000, last_tv = \<lparr>tv_sec = 2, tv_usec = 999999\<rparr>,
        last_tv_valid = True\<rparr>
     = Inr (\<lparr>tv_sec = 3, tv_usec = 0\<rparr>,
            \<lparr>fio_tv = None, fio_clock_source = CS_CPUCLOCK, cycles_per_usec = 3000,
             last_cycles = 9000000000, last_tv = \<lparr>tv_sec = 3, tv_usec = 0\<rparr>,
             last_tv_valid = True\<rparr>) \<and>
   fio_gettime_calls
       [(\<lparr>gtod_result = None, cgt_result = None, cpu_clock = 8999999000\<rparr>,
         \<lparr>tv_sec = 0, tv_usec = 0\<rparr>)]
       \<lparr>fio_tv = None, fio_clock_source = CS_CPUCLOCK, cycles_per_usec = 3000,
        last_cycles = 9000000000, last_tv = \<lparr>tv_sec = 2, tv_usec = 999999\<rparr>,
        last_tv_valid = True\<rparr>
     = Inr ([\<lparr>tv_sec = 3, tv_usec = 0\<rparr>],
            \<lparr>fio_tv = None, fio_clock_source = CS_CPUCLOCK, cycles_per_usec = 3000,
             last_cycles = 9000000000, last_tv = \<lparr>tv_sec = 3, tv_usec = 0\<rparr>,
             last_tv_valid = True\<rparr>) \<and>
   last_cycles
       \<lparr>fio_tv = None, fio_clock_source = CS_CPUCLOCK, cycles_per_usec = 3000,
        last_cycles = 9000000000, last_tv = \<lparr>tv_sec = 2, tv_usec = 999999\<rparr>,
        last_tv_valid = True\<rparr>
     \<le> last_cycles
         \<lparr>fio_tv = None, fio_clock_source = CS_CPUCLOCK, cycles_per_usec = 3000,
          last_cycles = 9000000000, last_tv = \<lparr>tv_sec = 3, tv_usec = 0\<rparr>,
          last_tv_valid = True\<rparr>"
  using cpu_clock_regression_clamped
          [of "\<lparr>fio_tv = None, fio_clock_source = CS_CPUCLOCK, cycles_per_usec = 3000,
                last_cycles = 9000000000, last_tv = \<lparr>tv_sec = 2, tv_usec = 999999\<rparr>,
                last_tv_valid = True\<rparr>"
              "\<lparr>gtod_result = None, cgt_result = None, cpu_clock = 8999999000\<rparr>"
              "\<lparr>tv_sec = 0, tv_usec = 0\<rparr>"
              "[(\<lparr>gtod_result = None, cgt_result = None, cpu_clock = 8999999000\<rparr>,
                 \<lparr>tv_sec = 0, tv_usec = 0\<rparr>)]"
              "[\<lparr>tv_sec = 3, tv_usec = 0\<rparr>]"
              "\<lparr>fio_tv = None, fio_clock_source = CS_CPUCLOCK, cycles_per_usec = 3000,
                last_cycles = 9000000000, last_tv = \<lparr>tv_sec = 3, tv_usec = 0\<rparr>,
                last_tv_valid = True\<rparr>"]
  by (simp add: fixup_backwards_def Let_def word_sless_alt)

text \<open>
  Claim C10.  While \<open>fio_tv\<close> points to a sample, \<open>fio_gettime\<close> returns that
  sample as it is and leaves the whole state, \<open>last_tv\<close> and \<open>last_tv_valid\<close>
  included, unchanged.
\<close>

theorem fio_gettime_fixed_time:
  "fio_tv st = Some v \<Longrightarrow> fio_gettime r tp st = Inr (v, st)"
  by (simp add: fio_gettime_def)

theorem fio_gettime_fixed_time_witness:
  "fio_gettime \<lparr>gtod_result = Some \<lparr>tv_sec = 60, tv_usec = 0\<rparr>, cgt_result = None, cpu_clock = 0\<rparr>
       \<lparr>tv_sec = 0, tv_usec = 0\<rparr>
       \<lparr>fio_tv = Some \<lparr>tv_sec = 1, tv_usec = 7\<rparr>, fio_clock_source = CS_GTOD,
        cycles_per_usec = 3000, last_cycles = 0, last_tv = \<lparr>tv_sec = 50, tv_usec = 0\<rparr>,
        last_tv_valid = True\<rparr>
     = Inr (\<lparr>tv_sec = 1, tv_usec = 7\<rparr>,
            \<lparr>fio_tv = Some \<lparr>tv_sec = 1, tv_usec = 7\<rparr>, fio_clock_source = CS_GTOD,
             cycles_per_usec = 3000, last_cycles = 0, last_tv = \<lparr>tv_sec = 50, tv_usec = 0\<rparr>,
             last_tv_valid = True\<rparr>)"
  using fio_gettime_fixed_time
          [of "\<lparr>fio_tv = Some \<lparr>tv_sec = 1, tv_usec = 7\<rparr>, fio_clock_source = CS_GTOD,
                cycles_per_usec = 3000, last_cycles = 0,
                last_tv = \<lparr>tv_sec = 50, tv_usec = 0\<rparr>, last_tv_valid = True\<rparr>"
              "\<lparr>tv_sec = 1, tv_usec = 7\<rparr>"]
  by simp

text \<open>
  Claim C1, evaluated.  The wall clock answers 6 s 500 us and then 5 s 100 us.  The
  second candidate is earlier by whole seconds, so line 180 replaces its seconds, and
  the \<open>else\<close> branch that would replace the microseconds is not taken: the call
  returns 6 s 100 us, which is earlier than the 6 s 500 us returned before.
\<close>

theorem fio_gettime_returns_earlier_sample:
  "fio_gettime_calls
     [(\<lparr>gtod_result = Some \<lparr>tv_sec = 6, tv_usec = 500\<rparr>, cgt_result = None, cpu_clock = 0\<rparr>,
       \<lparr>tv_sec = 0, tv_usec = 0\<rparr>),
      (\<lparr>gtod_result = Some \<lparr>tv_sec = 5, tv_usec = 100\<rparr>, cgt_result = None, cpu_clock = 0\<rparr>,
       \<lparr>tv_sec = 0, tv_usec = 0\<rparr>)]
     \<lparr>fio_tv = None, fio_clock_source = CS_GTOD, cycles_per_usec = 0, last_cycles = 0,
      last_tv = \<lparr>tv_sec = 0, tv_usec = 0\<rparr>, last_tv_valid = False\<rparr>
   = Inr ([\<lparr>tv_sec = 6, tv_usec = 500\<rparr>, \<lparr>tv_sec = 6, tv_usec = 100\<rparr>],
          \<lparr>fio_tv = None, fio_clock_source = CS_GTOD, cycles_per_usec = 0, last_cycles = 0,
           last_tv = \<lparr>tv_sec = 6, tv_usec = 100\<rparr>, last_tv_valid = True\<rparr>) \<and>
   tv_less \<lparr>tv_sec = 6, tv_usec = 100\<rparr> \<lparr>tv_sec = 6, tv_usec = 500\<rparr> \<and>
   \<not> tv_le \<lparr>tv_sec = 6, tv_usec = 500\<rparr> \<lparr>tv_sec = 6, tv_usec = 100\<rparr>"
  by (simp add: fio_gettime_def read_clock_source_def fixup_backwards_def Let_def
      tv_less_def tv_le_def word_sless_alt)




section \<open>Properties of the cycle calibrator\<close>

subsection \<open>Rounding to double\<close>

lemma rne_of_int: "rne (of_int m) = m"
  by (simp add: rne_def)

lemma rnd_0: "rnd 0 = 0"
  by (simp add: rnd_def)

lemma rnd_int_exact:
  assumes "x \<in> \<int>" "\<bar>x\<bar> < 2 ^ 53"
  shows "rnd x = x"
proof (cases "x = 0")
  case True
  then show ?thesis by (simp add: rnd_def)
next
  case False
  from assms(1) obtain n where n: "x = of_int n" by (auto elim: Ints_cases)
  with False have "n \<noteq> 0" by auto
  then have one: "1 \<le> \<bar>x\<bar>" using n by (simp flip: of_int_abs)
  define e where "e = \<lfloor>log 2 \<bar>x\<bar>\<rfloor>"
  have "0 \<le> log 2 \<bar>x\<bar>" using one by simp
  then have e0: "0 \<le> e" by (simp add: e_def)
  have "log 2 \<bar>x\<bar> < log 2 (2 ^ 53)" using one assms(2) by (intro log_less) simp_all
  also have "log 2 (2 ^ 53 :: real) = 53" using log_pow_cancel [of 2 53] by simp
  finally have "e < 53" unfolding e_def by (simp add: floor_less_iff)
  then have e52: "e \<le> 52" by simp
  define k where "k = nat (52 - e)"
  have k: "e - 52 = - int k" using e52 by (simp add: k_def)
  have m: "max e (- 1022) = e" using e0 by simp
  have u: "2 powr of_int (e - 52) = 1 / (2 :: real) ^ k"
    unfolding k by (simp add: powr_minus powr_realpow inverse_eq_divide)
  have "x / (1 / 2 ^ k) = of_int (n * 2 ^ k)" by (simp add: n)
  then have "rne (x / (1 / 2 ^ k)) = n * 2 ^ k" by (simp only: rne_of_int)
  then have "of_int (rne (x / (1 / 2 ^ k))) * (1 / 2 ^ k) = x" by (simp add: n)
  with False show ?thesis
    unfolding rnd_def Let_def e_def [symmetric] m u by simp
qed

lemma rnd_nat_exact:
  assumes "n < 2 ^ 53"
  shows "rnd (real n) = real n"
proof -
  have "real n < 2 ^ 53" using assms by (metis of_nat_less_iff of_nat_numeral of_nat_power)
  then show ?thesis by (intro rnd_int_exact) simp_all
qed

lemma of_ulong_exact:
  assumes "unat c < 2 ^ 53"
  shows "of_ulong c = real (unat c)"
  unfolding of_ulong_def using assms by (rule rnd_nat_exact)

lemma to_ulong_nat: "to_ulong (real n) = word_of_nat n"
  by (simp add: to_ulong_def)

lemma accumulate_exact:
  assumes "unat avg + unat c < 2 ^ 53"
  shows "to_ulong (dadd (of_ulong avg) (of_ulong c)) = avg + c"
proof -
  have a: "of_ulong avg = real (unat avg)" "of_ulong c = real (unat c)"
    using assms by (simp_all add: of_ulong_exact)
  have "dadd (real (unat avg)) (real (unat c)) = real (unat avg + unat c)"
    unfolding dadd_def using rnd_nat_exact [OF assms] by simp
  then have "to_ulong (dadd (of_ulong avg) (of_ulong c)) = word_of_nat (unat avg + unat c)"
    by (simp only: a to_ulong_nat)
  then show ?thesis by simp
qed

lemma distance_rounded:
  "dsub (max a b) (min a b) = rnd \<bar>a - b\<bar>"
  by (simp add: dsub_def max_def min_def abs_if)


subsection \<open>One sampling round\<close>

lemma poll_returns:
  assumes "\<forall>x\<in>set early. utime_since s (tick_wall x) < 10" "10 \<le> utime_since s (tick_wall t)"
  shows "poll_wall_clock s (early @ t # rest) = Some rest"
  using assms by (induction early) (simp_all add: Let_def not_le)

lemma poll_stops:
  "poll_wall_clock s w = Some rest \<Longrightarrow>
     \<exists>early t. w = early @ t # rest \<and> (\<forall>x\<in>set early. utime_since s (tick_wall x) < 10) \<and>
               10 \<le> utime_since s (tick_wall t)"
proof (induction w)
  case Nil
  then show ?case by simp
next
  case (Cons x w)
  show ?case
  proof (cases "10 \<le> utime_since s (tick_wall x)")
    case True
    with Cons.prems have "w = rest" by simp
    with True have "x # w = [] @ x # rest \<and>
        (\<forall>y\<in>set []. utime_since s (tick_wall y) < 10) \<and> 10 \<le> utime_since s (tick_wall x)"
      by simp
    then show ?thesis by blast
  next
    case False
    with Cons.prems have "poll_wall_clock s w = Some rest" by simp
    from Cons.IH [OF this] obtain early t
      where "w = early @ t # rest" "\<forall>y\<in>set early. utime_since s (tick_wall y) < 10"
        "10 \<le> utime_since s (tick_wall t)"
      by blast
    with False have "x # w = (x # early) @ t # rest \<and>
        (\<forall>y\<in>set (x # early). utime_since s (tick_wall y) < 10) \<and>
        10 \<le> utime_since s (tick_wall t)"
      by (simp add: not_le)
    then show ?thesis by blast
  qed
qed

lemma get_cycles_round:
  assumes "w = t_s # t_cs # early @ t_e # t_ce # rest"
    and "\<forall>x\<in>set early. utime_since (tick_wall t_s) (tick_wall x) < 10"
    and "10 \<le> utime_since (tick_wall t_s) (tick_wall t_e)"
  shows "get_cycles_per_usec w = Some (tick_cycles t_ce - tick_cycles t_cs, rest)"
  using assms
  by (simp add: get_cycles_per_usec_def gettimeofday_def get_cpu_clock_def poll_returns)

lemma get_cycles_decompose:
  assumes "get_cycles_per_usec w = Some (c, w')"
  shows "\<exists>t_s t_cs early t_e t_ce.
           w = t_s # t_cs # early @ t_e # t_ce # w' \<and>
           (\<forall>x\<in>set early. utime_since (tick_wall t_s) (tick_wall x) < 10) \<and>
           10 \<le> utime_since (tick_wall t_s) (tick_wall t_e) \<and>
           c = tick_cycles t_ce - tick_cycles t_cs"
proof -
  from assms obtain t_s t_cs w1 w2 t_ce
    where w: "w = t_s # t_cs # w1"
      and p: "poll_wall_clock (tick_wall t_s) w1 = Some w2"
      and r: "w2 = t_ce # w'" "c = tick_cycles t_ce - tick_cycles t_cs"
    by (auto simp: get_cycles_per_usec_def gettimeofday_def get_cpu_clock_def
        split: list.splits option.splits)
  from poll_stops [OF p] obtain early t_e
    where "w1 = early @ t_e # w2"
      "\<forall>x\<in>set early. utime_since (tick_wall t_s) (tick_wall x) < 10"
      "10 \<le> utime_since (tick_wall t_s) (tick_wall t_e)"
    by blast
  with w r show ?thesis by simp
qed

subsection \<open>The rounds of the calibrator and its first loop\<close>

lemma sampling_rounds_length:
  "sampling_rounds n w = Some (cs, w') \<Longrightarrow> length cs = n"
  by (induction n arbitrary: w cs) (auto split: option.splits)

lemma stats_loop_sampling:
  assumes "sampling_rounds n w = Some (cs, w')" "i + n \<le> length cyc"
  shows "stats_loop n i (cyc, m, S, w)
           = (case welford i cs (m, S) of
                (m', S') \<Rightarrow> Some (take i cyc @ cs @ drop (i + n) cyc, m', S', w'))"
  using assms
proof (induction n arbitrary: i cyc m S w cs)
  case 0
  then show ?case by auto
next
  case (Suc n)
  from Suc.prems(1) obtain c w1 cs1
    where g: "get_cycles_per_usec w = Some (c, w1)"
      and r: "sampling_rounds n w1 = Some (cs1, w')"
      and cs: "cs = c # cs1"
    by (auto split: option.splits)
  obtain m1 S1 where u: "stats_update i c (m, S) = (m1, S1)"
    by (cases "stats_update i c (m, S)")
  have i: "i < length cyc" using Suc.prems(2) by simp
  have len: "Suc i + n \<le> length (cyc[i := c])" using Suc.prems(2) by simp
  have t: "take (Suc i) (cyc[i := c]) = take i cyc @ [c]"
    using i by (simp add: take_Suc_conv_app_nth)
  have d: "drop (Suc i + n) (cyc[i := c]) = drop (i + Suc n) cyc" by simp
  have "stats_loop (Suc n) i (cyc, m, S, w) = stats_loop n (Suc i) (cyc[i := c], m1, S1, w1)"
    using g u by simp
  also have "\<dots> = (case welford (Suc i) cs1 (m1, S1) of
                (m', S') \<Rightarrow> Some (take (Suc i) (cyc[i := c]) @ cs1 @ drop (Suc i + n) (cyc[i := c]),
                                 m', S', w'))"
    using r len by (rule Suc.IH)
  finally show ?case using u cs t d by simp
qed

lemma nine: "dsub 10 1 = 9"
proof -
  have "rnd 9 = 9" by (rule rnd_int_exact) simp_all
  then show ?thesis by (simp add: dsub_def)
qed

lemma calibration_stats_sampling:
  assumes "sampling_rounds 11 w = Some (c0 # cs, w')"
  shows "length cs = 10"
    and "calibration_stats w
           = Some (cs, fst (welford 0 cs (0, 0)), dsqrt (ddiv (snd (welford 0 cs (0, 0))) 9), w')"
proof -
  from assms sampling_rounds.simps(2) [of 10 w] obtain w0
    where g: "get_cycles_per_usec w = Some (c0, w0)"
      and r: "sampling_rounds 10 w0 = Some (cs, w')"
    by (auto split: option.splits)
  show len: "length cs = 10" using r by (rule sampling_rounds_length)
  obtain m S where wf: "welford 0 cs (0, 0) = (m, S)" by (cases "welford 0 cs (0, 0)")
  have l: "stats_loop 10 0 ((replicate 10 0)[0 := c0], 0, 0, w0) = Some (cs, m, S, w')"
    using stats_loop_sampling [OF r, of 0 "(replicate 10 0)[0 := c0]" 0 0] wf len by simp
  show "calibration_stats w
           = Some (cs, fst (welford 0 cs (0, 0)), dsqrt (ddiv (snd (welford 0 cs (0, 0))) 9), w')"
    using g l wf by (simp add: calibration_stats_def nine)
qed


subsection \<open>The incremental rule on exact runs\<close>







subsection \<open>Constant samples\<close>






subsection \<open>The second loop and the final division\<close>

lemma reject_loop_step:
  assumes "unat c < 2 ^ 53"
  shows "reject_loop (c # cs) mean S (samples, avg)
           = (if rnd \<bar>real (unat c) - mean\<bar> \<le> S
              then reject_loop cs mean S (samples + 1, to_ulong (dadd (of_ulong avg) (of_ulong c)))
              else reject_loop cs mean S (samples, avg))"
proof -
  have o: "of_ulong c = real (unat c)" using assms by (rule of_ulong_exact)
  have d: "dsub (max (of_ulong c) mean) (min (of_ulong c) mean) = rnd \<bar>real (unat c) - mean\<bar>"
    unfolding distance_rounded o ..
  show ?thesis
    unfolding reject_loop.simps Let_def d by (simp only: not_le [symmetric] if_not_P if_P split: if_splits) auto
qed

lemma reject_loop_kept:
  assumes "unat avg + sum_list (map unat cs) < 2 ^ 53"
  shows "reject_loop cs mean S (samples, avg)
     = (samples + length (filter (\<lambda>c. rnd \<bar>real (unat c) - mean\<bar> \<le> S) cs),
        avg + sum_list (filter (\<lambda>c. rnd \<bar>real (unat c) - mean\<bar> \<le> S) cs))"
  using assms
proof (induction cs arbitrary: samples avg)
  case Nil
  then show ?case by simp
next
  case (Cons c cs)
  from Cons.prems have c: "unat c < 2 ^ 53" and ac: "unat avg + unat c < 2 ^ 53"
    and rest: "unat avg + sum_list (map unat cs) < 2 ^ 53" by simp_all
  show ?case
  proof (cases "rnd \<bar>real (unat c) - mean\<bar> \<le> S")
    case True
    have a: "to_ulong (dadd (of_ulong avg) (of_ulong c)) = avg + c"
      using ac by (rule accumulate_exact)
    have "unat (avg + c) = unat avg + unat c"
      using ac by (simp add: unat_word_ariths)
    with Cons.prems have "unat (avg + c) + sum_list (map unat cs) < 2 ^ 53" by simp
    note ih = Cons.IH [OF this, of "samples + 1"]
    have "reject_loop (c # cs) mean S (samples, avg)
            = reject_loop cs mean S (samples + 1, avg + c)"
      using True by (simp only: reject_loop_step [OF c] a if_True)
    with ih True show ?thesis by (simp del: reject_loop.simps add: add.assoc)
  next
    case False
    note ih = Cons.IH [OF rest, of samples]
    have "reject_loop (c # cs) mean S (samples, avg) = reject_loop cs mean S (samples, avg)"
      using False by (simp only: reject_loop_step [OF c] if_False)
    with ih False show ?thesis by (simp del: reject_loop.simps)
  qed
qed

lemma unat_sum_list:
  fixes cs :: "64 word list"
  assumes "sum_list (map unat cs) < 2 ^ 64"
  shows "unat (sum_list cs) = sum_list (map unat cs)"
  using assms
proof (induction cs)
  case Nil
  then show ?case by simp
next
  case (Cons c cs)
  then have "unat (sum_list cs) = sum_list (map unat cs)" by simp
  moreover from Cons.prems have "unat c + sum_list (map unat cs) < 2 ^ 64" by simp
  ultimately show ?case by (simp add: unat_word_ariths)
qed

lemma sum_list_filter_le:
  fixes f :: "'a \<Rightarrow> nat"
  shows "sum_list (map f (filter P xs)) \<le> sum_list (map f xs)"
  by (induction xs) simp_all

lemma calibrate_from_stats:
  assumes s: "calibration_stats w = Some (cycles, mean, S, w')"
    and b: "sum_list (map unat cycles) < 2 ^ 53"
  shows "calibrate_cpu_clock w st =
           Some (if filter (\<lambda>c. rnd \<bar>real (unat c) - mean\<bar> \<le> S) cycles = []
                 then Inl Division_by_zero
                 else Inr (st\<lparr>cycles_per_usec :=
                          sum_list (filter (\<lambda>c. rnd \<bar>real (unat c) - mean\<bar> \<le> S) cycles) div
                          word_of_nat (length (filter (\<lambda>c. rnd \<bar>real (unat c) - mean\<bar> \<le> S) cycles) * 10)\<rparr>,
                      w'))"
proof -
  have "unat (0 :: 64 word) + sum_list (map unat cycles) < 2 ^ 53" using b by simp
  from reject_loop_kept [OF this, of mean S 0] s show ?thesis
    by (simp add: calibrate_cpu_clock_def Let_def)
qed


subsection \<open>The example platform, evaluated\<close>

lemma example_rounds:
  "sampling_rounds 11 example_platform
     = Some ([30000, 29991, 30003, 29997, 29997, 29997, 29997, 29997, 30021, 30000, 30000], [])"
  by (simp add: eval_nat_numeral example_platform_def get_cycles_per_usec_def gettimeofday_def
      get_cpu_clock_def utime_since_def Let_def word_sless_alt)

lemma example_welford:
  "welford 0 [29991, 30003, 29997, 29997, 29997, 29997, 29997, 30021, 30000, 30000] (0, 0)
     = (30000, 576)"
  by (simp add: stats_update_def of_ulong_def of_index_def dadd_def dsub_def dmul_def ddiv_def
      Let_def rnd_int_exact rnd_0)


lemma example_deviation: "dsqrt (ddiv 576 9) = 8"
proof -
  have "rnd 64 = 64" by (rule rnd_int_exact) simp_all
  moreover have "sqrt 64 = 8" using real_sqrt_abs [of 8] by simp
  moreover have "rnd 8 = 8" by (rule rnd_int_exact) simp_all
  ultimately show ?thesis by (simp add: dsqrt_def ddiv_def)
qed

lemma example_stats:
  "calibration_stats example_platform
     = Some ([29991, 30003, 29997, 29997, 29997, 29997, 29997, 30021, 30000, 30000],
             30000, 8, [])"
  using calibration_stats_sampling(2) [OF example_rounds]
  by (simp only: example_welford fst_conv snd_conv example_deviation)

subsection \<open>The claims about the calibrator\<close>

text \<open>
  Claim C4, as the code has it.  A round of \<open>get_cycles_per_usec\<close> reads the wall
  clock, then the cycle counter, then polls the wall clock until it is read at least
  10 microseconds (by \<open>utime_since\<close>) after the first reading, and only at the
  instant after that reading reads the cycle counter again.  Its result is the number
  of cycles between its two readings of the cycle counter, \<open>c_e - c_s\<close>; it is not
  divided by the microseconds elapsed.  Every result of a round arises in this way.
\<close>

theorem get_cycles_per_usec_elapsed_cycles:
  "(w = t_s # t_cs # early @ t_e # t_ce # rest \<and>
    (\<forall>x\<in>set early. utime_since (tick_wall t_s) (tick_wall x) < 10) \<and>
    10 \<le> utime_since (tick_wall t_s) (tick_wall t_e)
      \<longrightarrow> get_cycles_per_usec w = Some (tick_cycles t_ce - tick_cycles t_cs, rest)) \<and>
   (get_cycles_per_usec w = Some (c, w')
      \<longrightarrow> (\<exists>t_s t_cs early t_e t_ce.
             w = t_s # t_cs # early @ t_e # t_ce # w' \<and>
             (\<forall>x\<in>set early. utime_since (tick_wall t_s) (tick_wall x) < 10) \<and>
             10 \<le> utime_since (tick_wall t_s) (tick_wall t_e) \<and>
             c = tick_cycles t_ce - tick_cycles t_cs))"
proof (intro conjI impI)
  assume "w = t_s # t_cs # early @ t_e # t_ce # rest \<and>
    (\<forall>x\<in>set early. utime_since (tick_wall t_s) (tick_wall x) < 10) \<and>
    10 \<le> utime_since (tick_wall t_s) (tick_wall t_e)"
  then have "w = t_s # t_cs # early @ t_e # t_ce # rest"
    "\<forall>x\<in>set early. utime_since (tick_wall t_s) (tick_wall x) < 10"
    "10 \<le> utime_since (tick_wall t_s) (tick_wall t_e)" by simp_all
  then show "get_cycles_per_usec w = Some (tick_cycles t_ce - tick_cycles t_cs, rest)"
    by (rule get_cycles_round)
next
  assume "get_cycles_per_usec w = Some (c, w')"
  then show "\<exists>t_s t_cs early t_e t_ce.
             w = t_s # t_cs # early @ t_e # t_ce # w' \<and>
             (\<forall>x\<in>set early. utime_since (tick_wall t_s) (tick_wall x) < 10) \<and>
             10 \<le> utime_since (tick_wall t_s) (tick_wall t_e) \<and>
             c = tick_cycles t_ce - tick_cycles t_cs"
    by (rule get_cycles_decompose)
qed

theorem get_cycles_per_usec_elapsed_cycles_witness:
  "get_cycles_per_usec
     [\<lparr>tick_wall = \<lparr>tv_sec = 0, tv_usec = 0\<rparr>, tick_cycles = 4000\<rparr>,
      \<lparr>tick_wall = \<lparr>tv_sec = 0, tv_usec = 1\<rparr>, tick_cycles = 5000\<rparr>,
      \<lparr>tick_wall = \<lparr>tv_sec = 0, tv_usec = 4\<rparr>, tick_cycles = 14000\<rparr>,
      \<lparr>tick_wall = \<lparr>tv_sec = 0, tv_usec = 20\<rparr>, tick_cycles = 62000\<rparr>,
      \<lparr>tick_wall = \<lparr>tv_sec = 0, tv_usec = 21\<rparr>, tick_cycles = 65000\<rparr>]
   = Some (60000, [])"
  using get_cycles_per_usec_elapsed_cycles
          [of "[\<lparr>tick_wall = \<lparr>tv_sec = 0, tv_usec = 0\<rparr>, tick_cycles = 4000\<rparr>,
      \<lparr>tick_wall = \<lparr>tv_sec = 0, tv_usec = 1\<rparr>, tick_cycles = 5000\<rparr>,
      \<lparr>tick_wall = \<lparr>tv_sec = 0, tv_usec = 4\<rparr>, tick_cycles = 14000\<rparr>,
      \<lparr>tick_wall = \<lparr>tv_sec = 0, tv_usec = 20\<rparr>, tick_cycles = 62000\<rparr>,
      \<lparr>tick_wall = \<lparr>tv_sec = 0, tv_usec = 21\<rparr>, tick_cycles = 65000\<rparr>]"
              "\<lparr>tick_wall = \<lparr>tv_sec = 0, tv_usec = 0\<rparr>, tick_cycles = 4000\<rparr>"
              "\<lparr>tick_wall = \<lparr>tv_sec = 0, tv_usec = 1\<rparr>, tick_cycles = 5000\<rparr>"
              "[\<lparr>tick_wall = \<lparr>tv_sec = 0, tv_usec = 4\<rparr>, tick_cycles = 14000\<rparr>]"
              "\<lparr>tick_wall = \<lparr>tv_sec = 0, tv_usec = 20\<rparr>, tick_cycles = 62000\<rparr>"
              "\<lparr>tick_wall = \<lparr>tv_sec = 0, tv_usec = 21\<rparr>, tick_cycles = 65000\<rparr>" "[]"]
  by (simp add: utime_since_def Let_def word_sless_alt)

text \<open>
  The claim as it is written fails on that round: the two readings of the cycle
  counter are 20 microseconds and 60000 cycles apart, a ratio of 3000, and the
  candidate returned is 60000.
\<close>

theorem get_cycles_per_usec_elapsed_cycles_counterexample:
  "get_cycles_per_usec
     [\<lparr>tick_wall = \<lparr>tv_sec = 0, tv_usec = 0\<rparr>, tick_cycles = 4000\<rparr>,
      \<lparr>tick_wall = \<lparr>tv_sec = 0, tv_usec = 1\<rparr>, tick_cycles = 5000\<rparr>,
      \<lparr>tick_wall = \<lparr>tv_sec = 0, tv_usec = 4\<rparr>, tick_cycles = 14000\<rparr>,
      \<lparr>tick_wall = \<lparr>tv_sec = 0, tv_usec = 20\<rparr>, tick_cycles = 62000\<rparr>,
      \<lparr>tick_wall = \<lparr>tv_sec = 0, tv_usec = 21\<rparr>, tick_cycles = 65000\<rparr>]
   = Some (60000, []) \<and>
   utime_since \<lparr>tv_sec = 0, tv_usec = 0\<rparr> \<lparr>tv_sec = 0, tv_usec = 20\<rparr> = 20 \<and>
   utime_since \<lparr>tv_sec = 0, tv_usec = 1\<rparr> \<lparr>tv_sec = 0, tv_usec = 21\<rparr> = 20 \<and>
   (60000 :: 64 word) \<noteq> (65000 - 5000) div 20"
  by (simp add: get_cycles_per_usec_def gettimeofday_def get_cpu_clock_def utime_since_def
      Let_def word_sless_alt)




text \<open>
  Claim C6, as the code has it.  When the eleven rounds return and the last ten
  candidates add up to less than \<open>2 ^ 53\<close> (so that the accumulation of \<open>avg\<close> in
  \<open>double\<close> is exact), the candidates kept are exactly those whose distance from the
  computed mean, rounded to \<open>double\<close>, does not exceed the computed deviation, and
  the calibration constant is the sum of the candidates kept divided, by unsigned
  integer division, by ten times their number: their arithmetic mean divided by 10 and
  truncated.  Were no candidate kept, the division would trap.
\<close>

theorem calibration_constant:
  assumes "sampling_rounds 11 w = Some (c0 # cs, w')"
    and "sum_list (map unat cs) < 2 ^ 53"
  shows "let mean = fst (welford 0 cs (0, 0));
             S = dsqrt (ddiv (snd (welford 0 cs (0, 0))) 9);
             kept = filter (\<lambda>c. rnd \<bar>real (unat c) - mean\<bar> \<le> S) cs
         in calibrate_cpu_clock w st =
              Some (if kept = [] then Inl Division_by_zero
                    else Inr (st\<lparr>cycles_per_usec :=
                                 sum_list kept div word_of_nat (length kept * 10)\<rparr>, w')) \<and>
            unat (sum_list kept div word_of_nat (length kept * 10))
              = sum_list (map unat kept) div (length kept * 10)"
proof -
  define mean where "mean = fst (welford 0 cs (0, 0))"
  define S where "S = dsqrt (ddiv (snd (welford 0 cs (0, 0))) 9)"
  define kept where "kept = filter (\<lambda>c. rnd \<bar>real (unat c) - mean\<bar> \<le> S) cs"
  have len: "length cs = 10" using assms(1) by (rule calibration_stats_sampling(1))
  have st: "calibration_stats w = Some (cs, mean, S, w')"
    unfolding mean_def S_def using assms(1) by (rule calibration_stats_sampling(2))
  have c: "calibrate_cpu_clock w st =
              Some (if kept = [] then Inl Division_by_zero
                    else Inr (st\<lparr>cycles_per_usec :=
                                 sum_list kept div word_of_nat (length kept * 10)\<rparr>, w'))"
    unfolding kept_def using st assms(2) by (rule calibrate_from_stats)
  have "sum_list (map unat kept) \<le> sum_list (map unat cs)"
    unfolding kept_def by (rule sum_list_filter_le)
  with assms(2) have "sum_list (map unat kept) < 2 ^ 53" by simp
  then have "sum_list (map unat kept) < 2 ^ 64" by simp
  then have s: "unat (sum_list kept) = sum_list (map unat kept)" by (rule unat_sum_list)
  have "length kept \<le> 10" unfolding kept_def using len length_filter_le [of _ cs] by simp
  then have "length kept * 10 \<le> unat (100 :: 64 word)" by simp
  then have "unat (word_of_nat (length kept * 10) :: 64 word) = length kept * 10"
    by (rule le_unat_uoi)
  with s have u: "unat (sum_list kept div word_of_nat (length kept * 10))
              = sum_list (map unat kept) div (length kept * 10)"
    by (simp only: unat_div)
  from c u show ?thesis
    unfolding Let_def mean_def [symmetric] S_def [symmetric] kept_def [symmetric] by simp
qed

theorem calibration_constant_witness:
  "calibrate_cpu_clock example_platform
     \<lparr>fio_tv = None, fio_clock_source = CS_CPUCLOCK, cycles_per_usec = 0, last_cycles = 0,
      last_tv = \<lparr>tv_sec = 0, tv_usec = 0\<rparr>, last_tv_valid = False\<rparr>
   = Some (Inr (\<lparr>fio_tv = None, fio_clock_source = CS_CPUCLOCK, cycles_per_usec = 2999, last_cycles = 0,
      last_tv = \<lparr>tv_sec = 0, tv_usec = 0\<rparr>, last_tv_valid = False\<rparr>, []))"
proof -
  have b: "sum_list (map unat ([29991, 30003, 29997, 29997, 29997, 29997, 29997, 30021, 30000, 30000] :: 64 word list)) < 2 ^ 53"
    by simp
  note c = calibration_constant [OF example_rounds b, of "\<lparr>fio_tv = None, fio_clock_source = CS_CPUCLOCK, cycles_per_usec = 0, last_cycles = 0,
      last_tv = \<lparr>tv_sec = 0, tv_usec = 0\<rparr>, last_tv_valid = False\<rparr>"]
  from c [unfolded example_welford fst_conv snd_conv example_deviation Let_def]
  show ?thesis by (simp add: rnd_int_exact)
qed

text \<open>
  On the example platform the candidates 29991 and 30021 are discarded and eight are
  kept.  The arithmetic mean of the candidates kept is 29998.5; the calibration
  constant is 2999.
\<close>

theorem calibration_constant_counterexample:
  "calibration_stats example_platform = Some ([29991, 30003, 29997, 29997, 29997, 29997, 29997, 30021, 30000, 30000], 30000, 8, []) \<and>
   calibrate_cpu_clock example_platform
     \<lparr>fio_tv = None, fio_clock_source = CS_CPUCLOCK, cycles_per_usec = 0, last_cycles = 0,
      last_tv = \<lparr>tv_sec = 0, tv_usec = 0\<rparr>, last_tv_valid = False\<rparr>
   = Some (Inr (\<lparr>fio_tv = None, fio_clock_source = CS_CPUCLOCK, cycles_per_usec = 2999, last_cycles = 0,
      last_tv = \<lparr>tv_sec = 0, tv_usec = 0\<rparr>, last_tv_valid = False\<rparr>, [])) \<and>
   (2999 :: real) \<noteq> (30003 + 5 * 29997 + 2 * 30000) / 8"
proof -
  have "sum_list (map unat ([29991, 30003, 29997, 29997, 29997, 29997, 29997, 30021, 30000, 30000] :: 64 word list)) < 2 ^ 53"
    by simp
  from calibrate_from_stats [OF example_stats this, of "\<lparr>fio_tv = None, fio_clock_source = CS_CPUCLOCK, cycles_per_usec = 0, last_cycles = 0,
      last_tv = \<lparr>tv_sec = 0, tv_usec = 0\<rparr>, last_tv_valid = False\<rparr>"]
  have "calibrate_cpu_clock example_platform
     \<lparr>fio_tv = None, fio_clock_source = CS_CPUCLOCK, cycles_per_usec = 0, last_cycles = 0,
      last_tv = \<lparr>tv_sec = 0, tv_usec = 0\<rparr>, last_tv_valid = False\<rparr>
   = Some (Inr (\<lparr>fio_tv = None, fio_clock_source = CS_CPUCLOCK, cycles_per_usec = 2999, last_cycles = 0,
      last_tv = \<lparr>tv_sec = 0, tv_usec = 0\<rparr>, last_tv_valid = False\<rparr>, []))"
    by (simp add: rnd_int_exact)
  with example_stats show ?thesis by simp
qed

end
